theory Spec2Isabelle
  imports Complex_Main "HOL-Library.Sublist" "HOL-Library.Multiset"
begin

section \<open>The BRC-20 transfer fee hook\<close>

text \<open>
  Source: \<^verbatim>\<open>hooks/brc20/useBrc20TransferFees.ts\<close>. The hook keeps four caller-visible
  state cells (\<^verbatim>\<open>commitValue\<close>, \<^verbatim>\<open>commitValueBreakdown\<close>, \<^verbatim>\<open>isLoading\<close>, \<^verbatim>\<open>errorCode\<close>)
  and one internal cell (\<^verbatim>\<open>isInitialised\<close>). Its effect runs whenever \<^verbatim>\<open>tick\<close>, \<^verbatim>\<open>amount\<close>,
  \<^verbatim>\<open>revealAddress\<close> or \<^verbatim>\<open>feeRate\<close> change. The state setters are modelled as record updates
  on an explicit state; the estimation service \<^verbatim>\<open>brc20TransferEstimateFees\<close> is external and
  is a parameter of the model, and every call made to it is recorded in a trace.
\<close>

subsection \<open>Data\<close>

text \<open>
  The amounts are JavaScript numbers that the hook only stores and hands on; it never
  computes with them. They are modelled as integers.
\<close>

record CommitValueBreakdown =
  commitChainFee :: int
  revealChainFee :: int
  revealServiceFee :: int
  transferChainFee :: int
  transferUtxoValue :: int

text \<open>
  The enum \<^verbatim>\<open>BRC20ErrorCode\<close> is declared in \<^verbatim>\<open>transactions/brc20\<close>, outside the sources at
  hand. The hook names two of its members; the others are kept apart by their key.
\<close>

datatype BRC20ErrorCode = INSUFFICIENT_FUNDS | SERVER_ERROR | OTHER_CODE string

datatype TransactionContext = TransactionContext nat

text \<open>The two cancel token sources that one run of the effect creates.\<close>

datatype CancelToken = feeCancelToken | feeEstimateCancelToken

text \<open>
  The hook's \<^verbatim>\<open>Props\<close>. The field \<^verbatim>\<open>context\<close> is written \<^verbatim>\<open>transactionContext\<close> here, since
  \<^verbatim>\<open>context\<close> is a keyword of the theory language.
\<close>

record Props =
  transactionContext :: TransactionContext
  tick :: string
  amount :: int
  feeRate :: int
  revealAddress :: string
  skipInitialFetch :: bool

text \<open>
  The object literal \<^verbatim>\<open>{ tick, amount, revealAddress, feeRate, cancelToken }\<close> that
  \<^verbatim>\<open>callEstimate\<close> passes to the service. It has no other field.
\<close>

datatype EstimateProps =
  EstimateProps (req_tick: string) (req_amount: int) (req_revealAddress: string)
    (req_feeRate: int) (req_cancelToken: CancelToken)

text \<open>
  What the service resolves to. Its field \<^verbatim>\<open>commitValue\<close> is written \<^verbatim>\<open>est_commitValue\<close>, to
  keep it apart from the state cell of the same name.
\<close>

record EstimateResult =
  est_commitValue :: int
  valueBreakdown :: CommitValueBreakdown

text \<open>
  What the awaited call can throw, as the \<^verbatim>\<open>catch\<close> block tells the cases apart, in its
  order: \<^verbatim>\<open>axios.isCancel(e)\<close>; a \<^verbatim>\<open>CoreError\<close> whose code is a key of the enum (the code is
  then cast to the enum, so the key is taken to name the member); any other \<^verbatim>\<open>CoreError\<close>;
  anything else.
\<close>

datatype thrown =
    AxiosCancel
  | CoreErrorWithCode BRC20ErrorCode
  | CoreErrorOther
  | NotCoreError

datatype outcome = Resolved EstimateResult | Rejected thrown

type_synonym api = "EstimateProps \<Rightarrow> TransactionContext \<Rightarrow> outcome"

datatype event = Issued EstimateProps | Settled EstimateProps outcome

record HookState =
  commitValue :: "int option"
  commitValueBreakdown :: "CommitValueBreakdown option"
  isLoading :: bool
  errorCode :: "BRC20ErrorCode option"
  isInitialised :: bool

text \<open>The four \<^verbatim>\<open>useState\<close> defaults and \<^verbatim>\<open>useState(false)\<close> twice.\<close>

definition initialState :: HookState where
  "initialState =
     \<lparr>commitValue = None, commitValueBreakdown = None, isLoading = False,
      errorCode = None, isInitialised = False\<rparr>"

text \<open>The value \<^verbatim>\<open>callEstimate\<close> returns: \<^verbatim>\<open>'cancelled'\<close>, an error code, or nothing.\<close>

datatype EphemeralErrorCode = cancelled | code BRC20ErrorCode | undefined_code

subsection \<open>The effect\<close>

definition estimateProps :: "Props \<Rightarrow> CancelToken \<Rightarrow> EstimateProps" where
  "estimateProps p tok = EstimateProps (tick p) (amount p) (revealAddress p) (feeRate p) tok"

text \<open>
  \<^verbatim>\<open>callEstimate\<close>: one awaited call of the service and the handling of its outcome. The
  setters write without reading, so the outcome is applied to the state as it is when the
  call settles; the state \<^verbatim>\<open>w\<close> handed in is that state.
\<close>

definition callEstimate ::
  "api \<Rightarrow> Props \<Rightarrow> CancelToken \<Rightarrow> HookState \<times> event list
     \<Rightarrow> EphemeralErrorCode \<times> HookState \<times> event list" where
  "callEstimate service p tok w =
     (let s = fst w;
          req = estimateProps p tok;
          out = service req (transactionContext p);
          tr = snd w @ [Issued req, Settled req out]
      in case out of
           Resolved result \<Rightarrow>
             (undefined_code,
              s\<lparr>commitValue := Some (est_commitValue result),
                commitValueBreakdown := Some (valueBreakdown result)\<rparr>, tr)
         | Rejected e \<Rightarrow>
             (case e of
                AxiosCancel \<Rightarrow> (cancelled, s, tr)
              | CoreErrorWithCode c \<Rightarrow> (code c, s\<lparr>errorCode := Some c\<rparr>, tr)
              | CoreErrorOther \<Rightarrow> (undefined_code, s\<lparr>errorCode := Some SERVER_ERROR\<rparr>, tr)
              | NotCoreError \<Rightarrow> (undefined_code, s\<lparr>errorCode := Some SERVER_ERROR\<rparr>, tr)))"

text \<open>
  \<^verbatim>\<open>runEstimate\<close>: the first call uses \<^verbatim>\<open>feeCancelToken\<close>; the second is made only when
  the first returned \<^verbatim>\<open>INSUFFICIENT_FUNDS\<close>, after it was awaited, with
  \<^verbatim>\<open>feeEstimateCancelToken\<close>. A flow that ends \<^verbatim>\<open>'cancelled'\<close> returns before
  \<^verbatim>\<open>setIsLoading(false)\<close>.
\<close>

definition runEstimate :: "api \<Rightarrow> Props \<Rightarrow> HookState \<times> event list \<Rightarrow> HookState \<times> event list" where
  "runEstimate service p w =
     (let (e1, w1) = callEstimate service p feeCancelToken w;
          (e2, w2) = (if e1 = code INSUFFICIENT_FUNDS
                      then callEstimate service p feeEstimateCancelToken w1
                      else (e1, w1))
      in if e2 = cancelled then w2
         else (fst w2\<lparr>isLoading := False\<rparr>, snd w2))"

text \<open>
  The synchronous writes of one run of the effect: \<^verbatim>\<open>setIsLoading(true)\<close>,
  \<^verbatim>\<open>setErrorCode(undefined)\<close> and, after \<^verbatim>\<open>runEstimate\<close> has been started,
  \<^verbatim>\<open>setIsInitialised(true)\<close>. This is the state a caller sees while the estimate is in
  flight: \<^verbatim>\<open>runEstimate\<close> writes nothing before its first \<^verbatim>\<open>await\<close> resolves.
\<close>

definition effectSync :: "HookState \<Rightarrow> HookState" where
  "effectSync s = s\<lparr>isLoading := True, errorCode := None, isInitialised := True\<rparr>"

text \<open>
  One run of the effect to completion. The guard reads \<^verbatim>\<open>isInitialised\<close> as the render
  that scheduled the effect saw it, that is, before \<^verbatim>\<open>setIsInitialised(true)\<close>.
\<close>

definition effect :: "api \<Rightarrow> Props \<Rightarrow> HookState \<times> event list \<Rightarrow> HookState \<times> event list" where
  "effect service p w =
     (if \<not> skipInitialFetch p \<or> isInitialised (fst w)
      then runEstimate service p (effectSync (fst w), snd w)
      else (effectSync (fst w), snd w))"

text \<open>What the hook returns to its caller.\<close>

definition visible ::
  "HookState \<Rightarrow> int option \<times> CommitValueBreakdown option \<times> bool \<times> BRC20ErrorCode option" where
  "visible s = (commitValue s, commitValueBreakdown s, isLoading s, errorCode s)"

subsection \<open>Example environment\<close>

definition exampleProps :: Props where
  "exampleProps =
     \<lparr>transactionContext = TransactionContext 0, tick = ''ORDI'', amount = 10, feeRate = 5,
      revealAddress = ''bc1prtztqsgks2l6yuuhgsp36lw5n6dzpkj287lesqnfgktzqajendzq3p9urw'',
      skipInitialFetch = False\<rparr>"

definition exampleResult :: EstimateResult where
  "exampleResult =
     \<lparr>est_commitValue = 12345,
      valueBreakdown =
        \<lparr>commitChainFee = 1000, revealChainFee = 2000, revealServiceFee = 3000,
         transferChainFee = 4000, transferUtxoValue = 2345\<rparr>\<rparr>"

definition previousState :: HookState where
  "previousState =
     \<lparr>commitValue = Some 777,
      commitValueBreakdown =
        Some \<lparr>commitChainFee = 100, revealChainFee = 200, revealServiceFee = 300,
              transferChainFee = 77, transferUtxoValue = 100\<rparr>,
      isLoading = False, errorCode = None, isInitialised = True\<rparr>"

text \<open>A service whose first call lacks funds and whose second call succeeds.\<close>

definition fundsThenOk :: api where
  "fundsThenOk req ctx =
     (if req_cancelToken req = feeCancelToken
      then Rejected (CoreErrorWithCode INSUFFICIENT_FUNDS)
      else Resolved exampleResult)"

text \<open>A service that always lacks funds.\<close>

definition alwaysInsufficient :: api where
  "alwaysInsufficient req ctx = Rejected (CoreErrorWithCode INSUFFICIENT_FUNDS)"

text \<open>A service whose first call lacks funds and whose second call is cancelled.\<close>

definition fundsThenCancel :: api where
  "fundsThenCancel req ctx =
     (if req_cancelToken req = feeCancelToken
      then Rejected (CoreErrorWithCode INSUFFICIENT_FUNDS)
      else Rejected AxiosCancel)"

text \<open>A service that is cancelled at once.\<close>

definition alwaysCancelled :: api where
  "alwaysCancelled req ctx = Rejected AxiosCancel"

text \<open>
  A state left by an earlier run: fee values of a previous estimate and the error code of
  a later failure.
\<close>

definition staleErrorState :: HookState where
  "staleErrorState =
     \<lparr>commitValue = Some 777,
      commitValueBreakdown =
        Some \<lparr>commitChainFee = 100, revealChainFee = 200, revealServiceFee = 300,
              transferChainFee = 77, transferUtxoValue = 100\<rparr>,
      isLoading = False, errorCode = Some SERVER_ERROR, isInitialised = True\<rparr>"

text \<open>A service that resolves at once.\<close>

definition alwaysOk :: api where
  "alwaysOk req ctx = Resolved exampleResult"

text \<open>A service that fails with something that is no \<^verbatim>\<open>CoreError\<close>.\<close>

definition serverDown :: api where
  "serverDown req ctx = Rejected NotCoreError"

section \<open>The UTXO selector\<close>

text \<open>
  \<^verbatim>\<open>selectUnspentOutputs\<close> lives in \<^verbatim>\<open>transactions/btc\<close>, which is not among the sources;
  its tests (\<^verbatim>\<open>tests/btc/transactions.test.ts\<close>, the block \<^verbatim>\<open>UTXO selection\<close>) are. The
  data below follows the specification's data model and the objects the tests build.
\<close>

datatype ErrorKind =
    InsufficientFunds
  | InvalidAddress
  | MalformedInput
  | NetworkOrIndexerError
  | Cancelled
  | ServerError
  | Unclassified

record Confirmation =
  confirmed :: bool
  blockHeight :: "nat option"
  blockTime :: "nat option"
  blockHash :: "string option"

record UTXO =
  transactionId :: string
  outputIndex :: nat
  valueSats :: int
  owningAddress :: string
  confirmation :: Confirmation

datatype ScriptType = WrappedSegwit | NativeSegwit | Taproot | Legacy

text \<open>
  The fixed byte weights of the fee model. The specification names them (base overhead,
  bytes per input and per output by script type) without giving their values, so they
  are a parameter.
\<close>

record ByteWeights =
  baseBytes :: nat
  inputBytes :: "ScriptType \<Rightarrow> nat"
  outputBytes :: "ScriptType \<Rightarrow> nat"

text \<open>
  Modelled from the spec: the fee model (section 4.1), whose code is not among the
  sources. \<^verbatim>\<open>estimateVirtualSize(inputCount, outputScriptTypes[], inputScriptType, hasChange)\<close>
  adds the base overhead, the bytes of each input and the bytes of each output; the change
  output, when there is one, is counted with the script type of the inputs, since change
  returns to the spending address. \<^verbatim>\<open>computeFee(bytes, ratePerByte) = ceil(bytes * ratePerByte)\<close>.
\<close>

definition estimateVirtualSize ::
  "ByteWeights \<Rightarrow> nat \<Rightarrow> ScriptType list \<Rightarrow> ScriptType \<Rightarrow> bool \<Rightarrow> nat" where
  "estimateVirtualSize w inputCount outputScriptTypes inputScriptType hasChange =
     baseBytes w + inputCount * inputBytes w inputScriptType
       + sum_list (map (outputBytes w) outputScriptTypes)
       + (if hasChange then outputBytes w inputScriptType else 0)"

definition computeFee :: "nat \<Rightarrow> rat \<Rightarrow> int" where
  "computeFee bytes ratePerByte = \<lceil>of_nat bytes * ratePerByte\<rceil>"

text \<open>
  Modelled from the spec: the dust test of section 4.2, step 4. A candidate is dust when
  its value is less than the fee that its own input adds at the given rate.
\<close>

definition marginalInputFee :: "ByteWeights \<Rightarrow> ScriptType \<Rightarrow> rat \<Rightarrow> int" where
  "marginalInputFee w inputScriptType ratePerByte =
     computeFee (inputBytes w inputScriptType) ratePerByte"

definition isDust :: "ByteWeights \<Rightarrow> ScriptType \<Rightarrow> rat \<Rightarrow> UTXO \<Rightarrow> bool" where
  "isDust w inputScriptType ratePerByte u \<longleftrightarrow>
     valueSats u < marginalInputFee w inputScriptType ratePerByte"

definition isConfirmed :: "UTXO \<Rightarrow> bool" where
  "isConfirmed u = confirmed (confirmation u)"

text \<open>
  Modelled from the spec: \<^verbatim>\<open>sumUnspentOutputs\<close> of \<^verbatim>\<open>transactions/btc\<close> (not among the
  sources), the derived total value of a selection (section 3).
\<close>

definition sumUnspentOutputs :: "UTXO list \<Rightarrow> int" where
  "sumUnspentOutputs us = sum_list (map valueSats us)"

text \<open>
  Modelled from the spec: the order of the candidates (section 4.2, steps 2 and 5). Each
  part of the pool is sorted descending by value with a stable sort, so ties keep the order
  of the pool; the confirmed part comes first.
\<close>

definition sortDescending :: "UTXO list \<Rightarrow> UTXO list" where
  "sortDescending us = sort_key (\<lambda>u. - valueSats u) us"

definition candidates :: "UTXO list \<Rightarrow> UTXO list" where
  "candidates pool =
     sortDescending (filter isConfirmed pool)
     @ sortDescending (filter (\<lambda>u. \<not> isConfirmed u) pool)"

text \<open>
  Modelled from the spec: the greedy walk of section 4.2 over the ordered candidates. It
  stops as soon as the accumulated value has reached the target, skips a candidate that is
  dust and goes on past it, takes every other candidate, and fails with
  \<^verbatim>\<open>InsufficientFunds\<close> when the candidates run out before the target is reached.
\<close>

fun walk :: "int \<Rightarrow> int \<Rightarrow> int \<Rightarrow> UTXO list \<Rightarrow> ErrorKind + UTXO list" where
  "walk dustFee targetSats acc [] =
     (if targetSats \<le> acc then Inr [] else Inl InsufficientFunds)"
| "walk dustFee targetSats acc (u # us) =
     (if targetSats \<le> acc then Inr []
      else if valueSats u < dustFee then walk dustFee targetSats acc us
      else (case walk dustFee targetSats (acc + valueSats u) us of
              Inl e \<Rightarrow> Inl e
            | Inr sel \<Rightarrow> Inr (u # sel)))"

text \<open>
  Modelled from the spec: \<^verbatim>\<open>selectUnspentOutputs(amountSats, feeRate, unspentOutputs)\<close> of
  \<^verbatim>\<open>transactions/btc\<close> (not among the sources), called without a pinned output as every
  test of the block \<^verbatim>\<open>UTXO selection\<close> calls it. The model follows section 4.2 of the
  specification: the pool is split into confirmed and unconfirmed outputs, each part is
  sorted descending by value, the walk takes the confirmed part first, a dust candidate is
  skipped, and an exhausted pool gives \<^verbatim>\<open>InsufficientFunds\<close>. The stop test is the one the
  tests pin: the walk ends once the accumulated value has reached \<^verbatim>\<open>amountSats\<close> itself.
  (Step 3 of the specification adds the fee of the selection to the amount before
  comparing. The test \<^verbatim>\<open>Uses unconfirmed UTXOs if sats to send high enough\<close> expects, for
  an amount of 30000 at 22 sat/vB, the outputs of 20000 and 10000 and no third one; with
  any positive fee in the stop test the third output would be taken too.)
\<close>

definition selectUnspentOutputs ::
  "ByteWeights \<Rightarrow> ScriptType \<Rightarrow> int \<Rightarrow> rat \<Rightarrow> UTXO list \<Rightarrow> ErrorKind + UTXO list" where
  "selectUnspentOutputs w inputScriptType amountSats ratePerByte unspentOutputs =
     walk (marginalInputFee w inputScriptType ratePerByte) amountSats 0
       (candidates unspentOutputs)"

text \<open>
  Modelled from the spec: section 4.2 to the letter, step 3 included, kept for comparison
  with the tests. After each addition the required total is the amount plus
  \<^verbatim>\<open>computeFee(estimateVirtualSize(selectedCount+1, ...), feeRatePerByte)\<close>, and the walk stops
  once the accumulated value has reached it. The outputs and the change flag of the
  transaction, which the specification leaves out of the selector's contract, are
  parameters.
\<close>

fun walkWithFee ::
  "int \<Rightarrow> (nat \<Rightarrow> int) \<Rightarrow> int \<Rightarrow> nat \<Rightarrow> UTXO list \<Rightarrow> ErrorKind + UTXO list" where
  "walkWithFee dustFee required acc n [] =
     (if required n \<le> acc then Inr [] else Inl InsufficientFunds)"
| "walkWithFee dustFee required acc n (u # us) =
     (if required n \<le> acc then Inr []
      else if valueSats u < dustFee then walkWithFee dustFee required acc n us
      else (case walkWithFee dustFee required (acc + valueSats u) (Suc n) us of
              Inl e \<Rightarrow> Inl e
            | Inr sel \<Rightarrow> Inr (u # sel)))"

definition selectWithFee ::
  "ByteWeights \<Rightarrow> ScriptType \<Rightarrow> ScriptType list \<Rightarrow> bool \<Rightarrow> int \<Rightarrow> rat \<Rightarrow> UTXO list
     \<Rightarrow> ErrorKind + UTXO list" where
  "selectWithFee w inputScriptType outputScriptTypes hasChange amountSats ratePerByte pool =
     walkWithFee (marginalInputFee w inputScriptType ratePerByte)
       (\<lambda>n. amountSats
              + computeFee (estimateVirtualSize w (n + 1) outputScriptTypes inputScriptType
                              hasChange) ratePerByte)
       0 0 (candidates pool)"

subsection \<open>The objects of the tests\<close>

text \<open>\<^verbatim>\<open>createUtxo(value, confirmed)\<close> of the test file.\<close>

definition createUtxo :: "int \<Rightarrow> bool \<Rightarrow> UTXO" where
  "createUtxo v c =
     \<lparr>transactionId = ''txid'', outputIndex = 0, valueSats = v, owningAddress = ''address'',
      confirmation =
        \<lparr>confirmed = c,
         blockHeight = (if c then Some 123123 else None),
         blockTime = (if c then Some 1677048365 else None),
         blockHash = (if c then Some ''block_hash'' else None)\<rparr>\<rparr>"

text \<open>
  Weights for the examples. The test \<^verbatim>\<open>Ignores UTXOs if they are dust at desired fee rate\<close>
  says that at 150 sat/vB one more input raises the fee by 10500, that is, 70 bytes per
  input. The base overhead and the output size are illustrative.
\<close>

definition testWeights :: ByteWeights where
  "testWeights = \<lparr>baseBytes = 10, inputBytes = (\<lambda>t. 70), outputBytes = (\<lambda>t. 34)\<rparr>"

section \<open>Properties\<close>

subsection \<open>Properties of the hook\<close>

lemma callEstimate_Resolved:
  "service (estimateProps p tok) (transactionContext p) = Resolved r \<Longrightarrow>
   callEstimate service p tok (s, tr) =
     (undefined_code,
      s\<lparr>commitValue := Some (est_commitValue r), commitValueBreakdown := Some (valueBreakdown r)\<rparr>,
      tr @ [Issued (estimateProps p tok), Settled (estimateProps p tok) (Resolved r)])"
  by (simp add: callEstimate_def Let_def)

lemma callEstimate_cancel:
  "service (estimateProps p tok) (transactionContext p) = Rejected AxiosCancel \<Longrightarrow>
   callEstimate service p tok (s, tr) =
     (cancelled, s,
      tr @ [Issued (estimateProps p tok), Settled (estimateProps p tok) (Rejected AxiosCancel)])"
  by (simp add: callEstimate_def Let_def)

lemma callEstimate_code:
  "service (estimateProps p tok) (transactionContext p) = Rejected (CoreErrorWithCode c) \<Longrightarrow>
   callEstimate service p tok (s, tr) =
     (code c, s\<lparr>errorCode := Some c\<rparr>,
      tr @ [Issued (estimateProps p tok),
            Settled (estimateProps p tok) (Rejected (CoreErrorWithCode c))])"
  by (simp add: callEstimate_def Let_def)

lemma callEstimate_rejected_frame:
  "service (estimateProps p tok) (transactionContext p) = Rejected e \<Longrightarrow>
   commitValue (fst (snd (callEstimate service p tok (s, tr)))) = commitValue s \<and>
   commitValueBreakdown (fst (snd (callEstimate service p tok (s, tr)))) = commitValueBreakdown s"
  by (cases e) (simp_all add: callEstimate_def Let_def)

text \<open>
  The calls one flow makes, in order. The second call is issued exactly when the first one
  was rejected by a \<^verbatim>\<open>CoreError\<close> with code \<^verbatim>\<open>INSUFFICIENT_FUNDS\<close>, and only after the first
  one has settled. Its request is \<^verbatim>\<open>estimateProps p feeEstimateCancelToken\<close>: the request of
  the first call with the other cancel token.
\<close>

lemma runEstimate_trace:
  "snd (runEstimate service p (s, tr)) =
     tr @ (let r1 = estimateProps p feeCancelToken;
               o1 = service r1 (transactionContext p);
               r2 = estimateProps p feeEstimateCancelToken
           in if o1 = Rejected (CoreErrorWithCode INSUFFICIENT_FUNDS)
              then [Issued r1, Settled r1 o1, Issued r2, Settled r2 (service r2 (transactionContext p))]
              else [Issued r1, Settled r1 o1])"
  by (auto simp: runEstimate_def callEstimate_def Let_def split: outcome.splits thrown.splits)

text \<open>
  Claim C6, at an input where the first estimate lacks funds. The flow issues the second
  estimate after the first has settled, and the second request carries the same tick,
  amount, reveal address and fee rate as the first and nothing else but the other cancel
  token: no placeholder UTXO is handed to the service. The source announces the fictitious
  UTXO in a comment and leaves it as \<^verbatim>\<open>// TODO:\<close>.
\<close>

theorem fallback_repeats_primary_request:
  "snd (effect alwaysInsufficient exampleProps (initialState, [])) =
     [Issued (EstimateProps ''ORDI'' 10
        ''bc1prtztqsgks2l6yuuhgsp36lw5n6dzpkj287lesqnfgktzqajendzq3p9urw'' 5 feeCancelToken),
      Settled (EstimateProps ''ORDI'' 10
        ''bc1prtztqsgks2l6yuuhgsp36lw5n6dzpkj287lesqnfgktzqajendzq3p9urw'' 5 feeCancelToken)
        (Rejected (CoreErrorWithCode INSUFFICIENT_FUNDS)),
      Issued (EstimateProps ''ORDI'' 10
        ''bc1prtztqsgks2l6yuuhgsp36lw5n6dzpkj287lesqnfgktzqajendzq3p9urw'' 5
        feeEstimateCancelToken),
      Settled (EstimateProps ''ORDI'' 10
        ''bc1prtztqsgks2l6yuuhgsp36lw5n6dzpkj287lesqnfgktzqajendzq3p9urw'' 5
        feeEstimateCancelToken)
        (Rejected (CoreErrorWithCode INSUFFICIENT_FUNDS))]"
  by (simp add: effect_def runEstimate_def callEstimate_def Let_def estimateProps_def
      alwaysInsufficient_def exampleProps_def initialState_def effectSync_def)

theorem fallback_repeats_primary_request_witness:
  "length (snd (effect alwaysInsufficient exampleProps (initialState, []))) = 4
   \<and> snd (effect alwaysInsufficient exampleProps (initialState, [])) ! 2
       = Issued (EstimateProps (tick exampleProps) (amount exampleProps)
           (revealAddress exampleProps) (feeRate exampleProps) feeEstimateCancelToken)"
  using fallback_repeats_primary_request
  by (simp add: exampleProps_def)

text \<open>
  Claim C8: a cancelled request is silent. A call that is rejected by a cancellation
  returns \<^verbatim>\<open>'cancelled'\<close> and leaves the hook state as it found it, whichever token it used.
  When the first call of a flow is cancelled the flow ends with the state untouched
  (\<^verbatim>\<open>isLoading\<close> is not written either). When the first call lacked funds and the second call
  is cancelled, the flow ends with the state as the first call left it: the cancellation
  adds no write, and the only error code is the first call's \<^verbatim>\<open>INSUFFICIENT_FUNDS\<close>.
\<close>

theorem cancelled_request_writes_nothing:
  "(service (estimateProps p tok) (transactionContext p) = Rejected AxiosCancel \<longrightarrow>
      callEstimate service p tok (s, tr)
        = (cancelled, s,
           tr @ [Issued (estimateProps p tok),
                 Settled (estimateProps p tok) (Rejected AxiosCancel)]))
   \<and> (service (estimateProps p feeCancelToken) (transactionContext p) = Rejected AxiosCancel \<longrightarrow>
        fst (runEstimate service p (s, tr)) = s)
   \<and> (service (estimateProps p feeCancelToken) (transactionContext p)
          = Rejected (CoreErrorWithCode INSUFFICIENT_FUNDS)
        \<and> service (estimateProps p feeEstimateCancelToken) (transactionContext p)
          = Rejected AxiosCancel \<longrightarrow>
        fst (runEstimate service p (s, tr)) = s\<lparr>errorCode := Some INSUFFICIENT_FUNDS\<rparr>)"
  by (simp add: runEstimate_def callEstimate_def Let_def)

theorem cancelled_request_writes_nothing_witness:
  "callEstimate alwaysCancelled exampleProps feeCancelToken (effectSync previousState, [])
     = (cancelled, effectSync previousState,
        [Issued (estimateProps exampleProps feeCancelToken),
         Settled (estimateProps exampleProps feeCancelToken) (Rejected AxiosCancel)])
   \<and> fst (runEstimate alwaysCancelled exampleProps (effectSync previousState, []))
       = effectSync previousState
   \<and> fst (runEstimate fundsThenCancel exampleProps (effectSync previousState, []))
       = (effectSync previousState)\<lparr>errorCode := Some INSUFFICIENT_FUNDS\<rparr>"
  using cancelled_request_writes_nothing
          [of alwaysCancelled exampleProps feeCancelToken "effectSync previousState" "[]"]
        cancelled_request_writes_nothing
          [of fundsThenCancel exampleProps feeCancelToken "effectSync previousState" "[]"]
  by (simp add: alwaysCancelled_def fundsThenCancel_def estimateProps_def)

text \<open>
  Claim C9: when the first estimate fails with \<^verbatim>\<open>INSUFFICIENT_FUNDS\<close> and the second
  estimate succeeds, the caller sees the second estimate's \<^verbatim>\<open>commitValue\<close> and
  \<^verbatim>\<open>valueBreakdown\<close> together with the error code \<^verbatim>\<open>INSUFFICIENT_FUNDS\<close>, and loading has
  ended. This holds for the flow started in any state, and so for a whole run of the
  effect whose guard lets the estimate run.
\<close>

theorem fallback_success_keeps_error_code:
  assumes "service (estimateProps p feeCancelToken) (transactionContext p)
             = Rejected (CoreErrorWithCode INSUFFICIENT_FUNDS)"
    and "service (estimateProps p feeEstimateCancelToken) (transactionContext p) = Resolved r"
  shows "visible (fst (runEstimate service p (s, tr)))
           = (Some (est_commitValue r), Some (valueBreakdown r), False, Some INSUFFICIENT_FUNDS)
         \<and> (\<not> skipInitialFetch p \<or> isInitialised s \<longrightarrow>
              visible (fst (effect service p (s, tr)))
                = (Some (est_commitValue r), Some (valueBreakdown r), False,
                   Some INSUFFICIENT_FUNDS))"
  using assms
  by (simp add: effect_def runEstimate_def callEstimate_def Let_def visible_def)

theorem fallback_success_keeps_error_code_witness:
  "visible (fst (effect fundsThenOk exampleProps (previousState, [])))
     = (Some 12345,
        Some \<lparr>commitChainFee = 1000, revealChainFee = 2000, revealServiceFee = 3000,
              transferChainFee = 4000, transferUtxoValue = 2345\<rparr>,
        False, Some INSUFFICIENT_FUNDS)"
  using fallback_success_keeps_error_code
          [of fundsThenOk exampleProps exampleResult previousState "[]"]
  by (simp add: fundsThenOk_def estimateProps_def exampleProps_def exampleResult_def
      previousState_def)

text \<open>
  Claim C10: a new request resets the loading flag and the error code only, and the fee
  values of the previous estimate stay visible until a new estimate resolves. While the
  estimate is in flight the caller sees \<^verbatim>\<open>isLoading\<close> true, \<^verbatim>\<open>errorCode\<close> undefined and the
  previous \<^verbatim>\<open>commitValue\<close> and \<^verbatim>\<open>commitValueBreakdown\<close>. For one run of the effect
  from any state: a run whose guard skips the estimate, or whose first call is
  cancelled, ends in that in-flight state; a run whose estimate fails ends with the
  previous fee values, the error code of the failure (never the previous one) and, unless
  the last call was cancelled, loading ended; a run whose first call resolves ends with
  the new values and no error code.
\<close>

theorem new_request_keeps_stale_fees:
  "(let o1 = service (estimateProps p feeCancelToken) (transactionContext p);
        o2 = service (estimateProps p feeEstimateCancelToken) (transactionContext p);
        v = visible (fst (effect service p (s, tr)));
        cv = commitValue s; cvb = commitValueBreakdown s
    in visible (effectSync s) = (cv, cvb, True, None)
       \<and> (skipInitialFetch p \<and> \<not> isInitialised s \<longrightarrow> v = (cv, cvb, True, None))
       \<and> (\<not> skipInitialFetch p \<or> isInitialised s \<longrightarrow>
            (o1 = Rejected AxiosCancel \<longrightarrow> v = (cv, cvb, True, None))
          \<and> (\<forall>c. o1 = Rejected (CoreErrorWithCode c) \<and> c \<noteq> INSUFFICIENT_FUNDS \<longrightarrow>
                 v = (cv, cvb, False, Some c))
          \<and> (o1 = Rejected CoreErrorOther \<or> o1 = Rejected NotCoreError \<longrightarrow>
                 v = (cv, cvb, False, Some SERVER_ERROR))
          \<and> (o1 = Rejected (CoreErrorWithCode INSUFFICIENT_FUNDS) \<longrightarrow>
                 (o2 = Rejected AxiosCancel \<longrightarrow> v = (cv, cvb, True, Some INSUFFICIENT_FUNDS))
               \<and> (\<forall>c. o2 = Rejected (CoreErrorWithCode c) \<longrightarrow> v = (cv, cvb, False, Some c))
               \<and> (o2 = Rejected CoreErrorOther \<or> o2 = Rejected NotCoreError \<longrightarrow>
                      v = (cv, cvb, False, Some SERVER_ERROR)))
          \<and> (\<forall>r. o1 = Resolved r \<longrightarrow>
                 v = (Some (est_commitValue r), Some (valueBreakdown r), False, None))))"
  by (auto simp: effect_def runEstimate_def callEstimate_def Let_def visible_def effectSync_def)

theorem new_request_keeps_stale_fees_witness:
  "visible (fst (effect alwaysCancelled exampleProps (staleErrorState, [])))
     = (Some 777,
        Some \<lparr>commitChainFee = 100, revealChainFee = 200, revealServiceFee = 300,
              transferChainFee = 77, transferUtxoValue = 100\<rparr>, True, None)
   \<and> visible (fst (effect alwaysOk (exampleProps\<lparr>skipInitialFetch := True\<rparr>)
                 (initialState\<lparr>errorCode := Some SERVER_ERROR\<rparr>, [])))
     = (None, None, True, None)
   \<and> visible (fst (effect serverDown exampleProps (staleErrorState, [])))
     = (Some 777,
        Some \<lparr>commitChainFee = 100, revealChainFee = 200, revealServiceFee = 300,
              transferChainFee = 77, transferUtxoValue = 100\<rparr>, False, Some SERVER_ERROR)
   \<and> visible (fst (effect alwaysInsufficient exampleProps (staleErrorState, [])))
     = (Some 777,
        Some \<lparr>commitChainFee = 100, revealChainFee = 200, revealServiceFee = 300,
              transferChainFee = 77, transferUtxoValue = 100\<rparr>, False,
        Some INSUFFICIENT_FUNDS)
   \<and> visible (fst (effect fundsThenCancel exampleProps (staleErrorState, [])))
     = (Some 777,
        Some \<lparr>commitChainFee = 100, revealChainFee = 200, revealServiceFee = 300,
              transferChainFee = 77, transferUtxoValue = 100\<rparr>, True,
        Some INSUFFICIENT_FUNDS)
   \<and> visible (fst (effect alwaysOk exampleProps (staleErrorState, [])))
     = (Some 12345,
        Some \<lparr>commitChainFee = 1000, revealChainFee = 2000, revealServiceFee = 3000,
              transferChainFee = 4000, transferUtxoValue = 2345\<rparr>, False, None)"
  using new_request_keeps_stale_fees [of alwaysCancelled exampleProps staleErrorState "[]"]
        new_request_keeps_stale_fees
          [of alwaysOk "exampleProps\<lparr>skipInitialFetch := True\<rparr>"
              "initialState\<lparr>errorCode := Some SERVER_ERROR\<rparr>" "[]"]
        new_request_keeps_stale_fees [of serverDown exampleProps staleErrorState "[]"]
        new_request_keeps_stale_fees [of alwaysInsufficient exampleProps staleErrorState "[]"]
        new_request_keeps_stale_fees [of fundsThenCancel exampleProps staleErrorState "[]"]
        new_request_keeps_stale_fees [of alwaysOk exampleProps staleErrorState "[]"]
  by (simp add: Let_def alwaysCancelled_def alwaysOk_def serverDown_def alwaysInsufficient_def
      fundsThenCancel_def estimateProps_def exampleProps_def exampleResult_def
      staleErrorState_def initialState_def)

subsection \<open>The selector on the repository's tests\<close>

text \<open>
  The five tests of the block \<^verbatim>\<open>UTXO selection\<close>, with the outputs they expect.
\<close>

lemmas sel_eval = selectUnspentOutputs_def candidates_def sortDescending_def isConfirmed_def
  createUtxo_def marginalInputFee_def computeFee_def testWeights_def

lemma test_selects_highest_value_first:
  "selectUnspentOutputs testWeights WrappedSegwit 10000 22
     [createUtxo 10000 True, createUtxo 20000 True] = Inr [createUtxo 20000 True]"
  by (simp add: sel_eval)

lemma test_selects_multiple:
  "selectUnspentOutputs testWeights WrappedSegwit 25000 22
     [createUtxo 10000 True, createUtxo 20000 True]
   = Inr [createUtxo 20000 True, createUtxo 10000 True]"
  by (simp add: sel_eval)

lemma test_deprioritises_unconfirmed:
  "selectUnspentOutputs testWeights WrappedSegwit 10000 22
     [createUtxo 10000 True, createUtxo 20000 True, createUtxo 30000 False]
   = Inr [createUtxo 20000 True]"
  by (simp add: sel_eval)

lemma test_uses_unconfirmed_if_needed:
  "selectUnspentOutputs testWeights WrappedSegwit 30000 22
     [createUtxo 10000 True, createUtxo 20000 True, createUtxo 30000 False]
   = Inr [createUtxo 20000 True, createUtxo 10000 True]
   \<and> selectUnspentOutputs testWeights WrappedSegwit 40000 22
     [createUtxo 10000 True, createUtxo 20000 True, createUtxo 30000 False]
   = Inr [createUtxo 20000 True, createUtxo 10000 True, createUtxo 30000 False]"
  by (simp add: sel_eval)

lemma test_ignores_dust:
  "selectUnspentOutputs testWeights WrappedSegwit 30000 150
     [createUtxo 10000 True, createUtxo 20000 True, createUtxo 30000 False]
   = Inr [createUtxo 20000 True, createUtxo 30000 False]"
  by (simp add: sel_eval)

text \<open>
  The stop test of the specification's step 3 against the test
  \<^verbatim>\<open>Uses unconfirmed UTXOs if sats to send high enough\<close>: whatever the byte weights, the
  outputs and the change flag, at a positive rate it does not give the two outputs the
  test expects; with the example weights it takes the third output too.
\<close>

lemma walkWithFee_reaches:
  "walkWithFee d req acc n us = Inr sel \<Longrightarrow> req (n + length sel) \<le> acc + sum_list (map valueSats sel)"
proof (induction us arbitrary: acc n sel)
  case Nil
  then show ?case by (simp split: if_splits)
next
  case (Cons u us)
  show ?case
  proof (cases "req n \<le> acc")
    case True
    with Cons.prems show ?thesis by simp
  next
    case reach: False
    show ?thesis
    proof (cases "valueSats u < d")
      case True
      with reach Cons show ?thesis by simp
    next
      case False
      with reach Cons.prems obtain sel' where
        s: "walkWithFee d req (acc + valueSats u) (Suc n) us = Inr sel'" and e: "sel = u # sel'"
        by (auto split: sum.splits)
      from Cons.IH[OF s] e show ?thesis by (simp add: add.assoc)
    qed
  qed
qed

lemma computeFee_pos: "0 < bytes \<Longrightarrow> 0 < r \<Longrightarrow> 0 < computeFee bytes r"
  by (simp add: computeFee_def)

lemma spec_stop_test_fails_test:
  assumes "0 < r" and "0 < baseBytes w"
  shows "selectWithFee w t outs hasChange 30000 r
           [createUtxo 10000 True, createUtxo 20000 True, createUtxo 30000 False]
         \<noteq> Inr [createUtxo 20000 True, createUtxo 10000 True]"
proof
  assume "selectWithFee w t outs hasChange 30000 r
           [createUtxo 10000 True, createUtxo 20000 True, createUtxo 30000 False]
         = Inr [createUtxo 20000 True, createUtxo 10000 True]"
  from walkWithFee_reaches[OF this[unfolded selectWithFee_def]]
  have "computeFee (estimateVirtualSize w 3 outs t hasChange) r \<le> 0"
    by (simp add: createUtxo_def numeral_3_eq_3)
  moreover have "0 < estimateVirtualSize w 3 outs t hasChange"
    using assms(2) by (simp add: estimateVirtualSize_def)
  ultimately show False
    using computeFee_pos[of "estimateVirtualSize w 3 outs t hasChange" r] assms(1) by simp
qed

lemma spec_stop_test_on_test_input:
  "selectWithFee testWeights WrappedSegwit [] False 30000 22
     [createUtxo 10000 True, createUtxo 20000 True, createUtxo 30000 False]
   = Inr [createUtxo 20000 True, createUtxo 10000 True, createUtxo 30000 False]"
  by (simp add: selectWithFee_def sel_eval estimateVirtualSize_def)

subsection \<open>The greedy walk\<close>

lemma walk_reached: "t \<le> acc \<Longrightarrow> walk d t acc us = Inr []"
  by (cases us) simp_all

lemma walk_prefix:
  "walk d t acc us = Inr sel \<Longrightarrow> prefix sel (filter (\<lambda>u. \<not> valueSats u < d) us)"
  by (induction us arbitrary: acc sel) (auto split: if_splits sum.splits)

lemma walk_reaches:
  "walk d t acc us = Inr sel \<Longrightarrow> t \<le> acc + sum_list (map valueSats sel)"
proof (induction us arbitrary: acc sel)
  case Nil
  then show ?case by (simp split: if_splits)
next
  case (Cons u us)
  show ?case
  proof (cases "t \<le> acc")
    case True
    with Cons.prems show ?thesis by simp
  next
    case reach: False
    show ?thesis
    proof (cases "valueSats u < d")
      case True
      with reach Cons show ?thesis by simp
    next
      case False
      with reach Cons.prems obtain sel' where
        s: "walk d t (acc + valueSats u) us = Inr sel'" and e: "sel = u # sel'"
        by (auto split: sum.splits)
      from Cons.IH[OF s] e show ?thesis by (simp add: add.assoc)
    qed
  qed
qed

lemma walk_error:
  "walk d t acc us = Inl e \<Longrightarrow>
   e = InsufficientFunds \<and> acc + sum_list (map valueSats (filter (\<lambda>u. \<not> valueSats u < d) us)) < t"
proof (induction us arbitrary: acc)
  case Nil
  then show ?case by (simp split: if_splits)
next
  case (Cons u us)
  show ?case
  proof (cases "t \<le> acc")
    case True
    with Cons.prems show ?thesis by simp
  next
    case reach: False
    show ?thesis
    proof (cases "valueSats u < d")
      case True
      with reach Cons show ?thesis by simp
    next
      case False
      with reach Cons.prems have "walk d t (acc + valueSats u) us = Inl e"
        by (auto split: sum.splits)
      from Cons.IH[OF this] False show ?thesis by (simp add: add.assoc)
    qed
  qed
qed

lemma notDust_sum_nonneg:
  "0 \<le> d \<Longrightarrow> 0 \<le> sum_list (map valueSats (filter (\<lambda>u. \<not> valueSats u < d) us))"
  by (induction us) auto

lemma walk_fails:
  "0 \<le> d \<Longrightarrow> acc + sum_list (map valueSats (filter (\<lambda>u. \<not> valueSats u < d) us)) < t \<Longrightarrow>
   walk d t acc us = Inl InsufficientFunds"
proof (induction us arbitrary: acc)
  case Nil
  then show ?case by simp
next
  case (Cons u us)
  have nn: "0 \<le> sum_list (map valueSats (filter (\<lambda>u. \<not> valueSats u < d) (u # us)))"
    using Cons.prems(1) by (rule notDust_sum_nonneg)
  with Cons.prems(2) have "acc < t" by linarith
  then show ?case
    using Cons by (auto simp: add.assoc)
qed

lemma walk_append:
  "walk d t acc xs = Inr sel \<Longrightarrow> walk d t acc (xs @ ys) = Inr sel"
proof (induction xs arbitrary: acc sel)
  case Nil
  then show ?case by (cases ys) (auto split: if_splits)
next
  case (Cons x xs)
  then show ?case by (auto split: if_splits sum.splits)
qed

lemma walk_filter:
  "walk d t acc (filter (\<lambda>u. \<not> valueSats u < d) us) = walk d t acc us"
  by (induction us arbitrary: acc) (auto simp: walk_reached)

lemma dust_sum_le:
  "of_int (sum_list (map valueSats (filter (\<lambda>u. valueSats u < \<lceil>x\<rceil>) xs)))
     \<le> of_nat (length (filter (\<lambda>u. valueSats u < \<lceil>x\<rceil>) xs)) * (x::rat)"
proof (induction xs)
  case Nil
  then show ?case by simp
next
  case (Cons u xs)
  show ?case
  proof (cases "valueSats u < \<lceil>x\<rceil>")
    case True
    then have "of_int (valueSats u) < x" by (simp add: less_ceiling_iff)
    with Cons True show ?thesis by (simp add: algebra_simps)
  next
    case False
    with Cons show ?thesis by simp
  qed
qed

lemma sum_split_dust:
  "sum_list (map valueSats xs)
     = sum_list (map valueSats (filter (\<lambda>u. \<not> valueSats u < d) xs))
       + sum_list (map valueSats (filter (\<lambda>u. valueSats u < d) xs))"
  by (induction xs) auto

lemma sum_sortDescending:
  "sum_list (map valueSats (sortDescending xs)) = sum_list (map valueSats xs)"
proof -
  have "mset (map valueSats (sortDescending xs)) = mset (map valueSats xs)"
    by (simp add: sortDescending_def)
  then have "sum_mset (mset (map valueSats (sortDescending xs)))
               = sum_mset (mset (map valueSats xs))"
    by (rule arg_cong)
  then show ?thesis by (simp only: sum_mset_sum_list)
qed

lemma filter_sortDescending:
  "filter P (sortDescending xs) = sortDescending (filter P xs)"
  by (simp add: sortDescending_def filter_sort)

lemma sorted_sortDescending:
  "sorted_wrt (\<lambda>a b. valueSats b \<le> valueSats a) (sortDescending xs)"
proof -
  have "sorted (map (\<lambda>u. - valueSats u) (sortDescending xs))"
    by (simp add: sortDescending_def)
  then show ?thesis
    by (simp add: sorted_wrt_map)
qed

lemma set_sortDescending: "set (sortDescending xs) = set xs"
  by (simp add: sortDescending_def)

lemma mset_sortDescending: "mset (sortDescending xs) = mset xs"
  by (simp add: sortDescending_def)



lemma sum_list_filter_split:
  "sum_list (map f xs)
     = sum_list (map f (filter P xs)) + (sum_list (map f (filter (\<lambda>x. \<not> P x) xs)) :: int)"
  by (induction xs) auto

lemma select_walk:
  "selectUnspentOutputs w t a r pool = walk (marginalInputFee w t r) a 0 (candidates pool)"
  by (simp add: selectUnspentOutputs_def)

lemma mset_candidates: "mset (candidates pool) = mset pool"
  by (simp add: candidates_def mset_sortDescending)

lemma filter_candidates: "filter P (candidates pool) = candidates (filter P pool)"
proof -
  have "filter P (filter Q pool) = filter Q (filter P pool)" for Q
    by (simp add: conj_commute)
  then show ?thesis
    by (simp add: candidates_def filter_sortDescending)
qed

lemma sum_candidates:
  "sum_list (map valueSats (candidates pool)) = sum_list (map valueSats pool)"
  by (simp add: candidates_def sum_sortDescending sum_list_filter_split[symmetric])

lemma marginalInputFee_nonneg: "0 \<le> r \<Longrightarrow> 0 \<le> marginalInputFee w t r"
proof -
  assume "0 \<le> r"
  then have "0 \<le> of_nat (inputBytes w t) * r" by simp
  then have "0 \<le> \<lceil>of_nat (inputBytes w t) * r\<rceil>" by (simp only: zero_le_ceiling)
  then show ?thesis by (simp add: marginalInputFee_def computeFee_def)
qed

lemma confirmed_cover_without_dust:
  assumes r: "0 \<le> r"
    and cover: "a + computeFee (estimateVirtualSize w (length xs) outs t hasChange) r
                  \<le> sum_list (map valueSats xs)"
  shows "a \<le> sum_list (map valueSats (filter (\<lambda>u. \<not> valueSats u < marginalInputFee w t r) xs))"
proof -
  let ?x = "of_nat (inputBytes w t) * r"
  let ?d = "marginalInputFee w t r"
  let ?k = "length (filter (\<lambda>u. valueSats u < ?d) xs)"
  let ?A = "estimateVirtualSize w (length xs) outs t hasChange"
  have d: "?d = \<lceil>?x\<rceil>" by (simp add: marginalInputFee_def computeFee_def)
  have dust: "of_int (sum_list (map valueSats (filter (\<lambda>u. valueSats u < ?d) xs)))
                \<le> of_nat ?k * ?x"
    unfolding d by (rule dust_sum_le)
  have "?k \<le> length xs" by simp
  then have "?k * inputBytes w t \<le> length xs * inputBytes w t"
    by (rule mult_le_mono1)
  also have "\<dots> \<le> ?A"
    by (simp add: estimateVirtualSize_def)
  finally have "?k * inputBytes w t \<le> ?A" .
  then have "(of_nat (?k * inputBytes w t) :: rat) \<le> of_nat ?A"
    by (simp only: of_nat_le_iff)
  then have "of_nat (?k * inputBytes w t) * r \<le> of_nat ?A * r"
    using r by (rule mult_right_mono)
  then have kA: "of_nat ?k * ?x \<le> of_nat ?A * r"
    by (simp add: mult.assoc)
  have "of_nat ?A * r \<le> of_int (computeFee ?A r)"
    by (simp add: computeFee_def)
  with kA dust
  have "of_int (sum_list (map valueSats (filter (\<lambda>u. valueSats u < ?d) xs)))
          \<le> (of_int (computeFee ?A r) :: rat)"
    by linarith
  then have "sum_list (map valueSats (filter (\<lambda>u. valueSats u < ?d) xs)) \<le> computeFee ?A r"
    by (simp only: of_int_le_iff)
  with cover sum_split_dust[of xs ?d] show ?thesis by linarith
qed

lemma prefix_of_partitioned:
  assumes p: "prefix sel (A @ B)"
    and A: "\<forall>u\<in>set A. P u" and B: "\<forall>u\<in>set B. \<not> P u"
  shows "sel = filter P sel @ filter (\<lambda>u. \<not> P u) sel
         \<and> ((\<exists>u\<in>set sel. \<not> P u) \<longrightarrow> filter P sel = A)
         \<and> prefix (filter P sel) A \<and> prefix (filter (\<lambda>u. \<not> P u) sel) B"
proof -
  from p consider (inA) "prefix sel A" | (inB) us where "sel = A @ us" "prefix us B"
    by (auto simp: prefix_append)
  then show ?thesis
  proof cases
    case inA
    then have "set sel \<subseteq> set A" by (rule set_mono_prefix)
    with A have all: "\<forall>u\<in>set sel. P u" by auto
    then have "filter P sel = sel" "filter (\<lambda>u. \<not> P u) sel = []"
      by (simp_all add: filter_empty_conv)
    with inA all show ?thesis by simp
  next
    case inB
    from inB(2) have "set us \<subseteq> set B" by (rule set_mono_prefix)
    with B have nus: "\<forall>u\<in>set us. \<not> P u" by auto
    from A have fA: "filter P A = A" "filter (\<lambda>u. \<not> P u) A = []"
      by (simp_all add: filter_empty_conv)
    from nus have fu: "filter P us = []" "filter (\<lambda>u. \<not> P u) us = us"
      by (simp_all add: filter_empty_conv)
    from inB fA fu show ?thesis by simp
  qed
qed

lemma sorted_wrt_prefix: "prefix xs ys \<Longrightarrow> sorted_wrt R ys \<Longrightarrow> sorted_wrt R xs"
  by (auto simp: prefix_def sorted_wrt_append)

lemma walk_minimal:
  "walk d t acc us = Inr sel \<Longrightarrow> sel \<noteq> [] \<Longrightarrow>
   acc + sum_list (map valueSats (butlast sel)) < t"
proof (induction us arbitrary: acc sel)
  case Nil
  then show ?case by (simp split: if_splits)
next
  case (Cons u us)
  show ?case
  proof (cases "t \<le> acc")
    case True
    with Cons.prems show ?thesis by simp
  next
    case reach: False
    show ?thesis
    proof (cases "valueSats u < d")
      case True
      with reach Cons show ?thesis by simp
    next
      case False
      with reach Cons.prems obtain sel' where
        s: "walk d t (acc + valueSats u) us = Inr sel'" and e: "sel = u # sel'"
        by (auto split: sum.splits)
      show ?thesis
      proof (cases "sel' = []")
        case True
        with e reach show ?thesis by simp
      next
        case False
        from Cons.IH[OF s False] e False show ?thesis by (simp add: add.assoc)
      qed
    qed
  qed
qed

lemma sum_list_mset_cong:
  "mset xs = mset ys \<Longrightarrow> sum_list (map f xs) = (sum_list (map f ys) :: int)"
proof -
  assume "mset xs = mset ys"
  then have "mset (map f xs) = mset (map f ys)" by simp
  then have "sum_mset (mset (map f xs)) = sum_mset (mset (map f ys))"
    by (rule arg_cong)
  then show ?thesis by (simp only: sum_mset_sum_list)
qed

lemma notDust_sum_mono:
  assumes d: "0 \<le> d" and sub: "mset S \<subseteq># mset C"
  shows "sum_list (map valueSats (filter (\<lambda>u. \<not> valueSats u < d) S))
           \<le> sum_list (map valueSats (filter (\<lambda>u. \<not> valueSats u < d) C))"
proof -
  from sub obtain D where D: "mset C = mset S + D"
    by (auto simp: mset_subset_eq_exists_conv)
  obtain ds where ds: "mset ds = D" using ex_mset by blast
  from D ds have "mset C = mset (S @ ds)" by simp
  then have "mset (filter (\<lambda>u. \<not> valueSats u < d) C)
               = mset (filter (\<lambda>u. \<not> valueSats u < d) (S @ ds))"
    by (simp only: mset_filter)
  then have "sum_list (map valueSats (filter (\<lambda>u. \<not> valueSats u < d) C))
               = sum_list (map valueSats (filter (\<lambda>u. \<not> valueSats u < d) (S @ ds)))"
    by (rule sum_list_mset_cong)
  also have "\<dots> = sum_list (map valueSats (filter (\<lambda>u. \<not> valueSats u < d) S))
                   + sum_list (map valueSats (filter (\<lambda>u. \<not> valueSats u < d) ds))"
    by simp
  finally show ?thesis
    using notDust_sum_nonneg[OF d, of ds] by linarith
qed

subsection \<open>Properties of the selector\<close>

text \<open>
  Claim C1, as stated, at the input of the test
  \<^verbatim>\<open>Uses unconfirmed UTXOs if sats to send high enough\<close>: for an amount of 30000 at
  22 sat/vB the selection is the outputs of 20000 and 10000, worth 30000 together, which
  is the amount and not the amount plus the fee of a transaction with these two inputs.
\<close>

theorem selection_total_misses_fee:
  "selectUnspentOutputs testWeights WrappedSegwit 30000 22
     [createUtxo 10000 True, createUtxo 20000 True, createUtxo 30000 False]
     = Inr [createUtxo 20000 True, createUtxo 10000 True]
   \<and> sumUnspentOutputs [createUtxo 20000 True, createUtxo 10000 True] = 30000
   \<and> computeFee (estimateVirtualSize testWeights 2 [] WrappedSegwit False) 22 = 3300
   \<and> \<not> (30000 + computeFee (estimateVirtualSize testWeights 2 [] WrappedSegwit False) 22
          \<le> sumUnspentOutputs [createUtxo 20000 True, createUtxo 10000 True])"
  by (simp add: sel_eval sumUnspentOutputs_def estimateVirtualSize_def)

text \<open>
  Claim C1, amended: a selection is a sub-multiset of the pool and is worth at least the
  amount itself (the fee of the selection is not part of the bound); the only failure is
  \<^verbatim>\<open>InsufficientFunds\<close>, and it means that the outputs of the pool that are not dust are
  together worth less than the amount; at a non-negative rate it is raised whenever
  they are.
\<close>

theorem select_covers_target:
  "(selectUnspentOutputs w t a r pool = Inr sel \<longrightarrow>
      mset sel \<subseteq># mset pool \<and> a \<le> sumUnspentOutputs sel)
   \<and> (selectUnspentOutputs w t a r pool = Inl e \<longrightarrow>
        e = InsufficientFunds
        \<and> sumUnspentOutputs (filter (\<lambda>u. \<not> isDust w t r u) pool) < a)
   \<and> (0 \<le> r \<and> sumUnspentOutputs (filter (\<lambda>u. \<not> isDust w t r u) pool) < a \<longrightarrow>
        selectUnspentOutputs w t a r pool = Inl InsufficientFunds)"
proof -
  let ?d = "marginalInputFee w t r"
  have nd: "sum_list (map valueSats (filter (\<lambda>u. \<not> valueSats u < ?d) (candidates pool)))
              = sumUnspentOutputs (filter (\<lambda>u. \<not> isDust w t r u) pool)"
    by (simp add: filter_candidates sum_candidates sumUnspentOutputs_def isDust_def)
  have 1: "mset sel \<subseteq># mset pool \<and> a \<le> sumUnspentOutputs sel"
    if h: "selectUnspentOutputs w t a r pool = Inr sel"
  proof
    from h have "prefix sel (filter (\<lambda>u. \<not> valueSats u < ?d) (candidates pool))"
      by (simp add: select_walk walk_prefix)
    then obtain rest where "filter (\<lambda>u. \<not> valueSats u < ?d) (candidates pool) = sel @ rest"
      by (auto simp: prefix_def)
    then have "mset sel \<subseteq># mset (filter (\<lambda>u. \<not> valueSats u < ?d) (candidates pool))"
      by simp
    also have "\<dots> \<subseteq># mset (candidates pool)"
      by (simp only: mset_filter multiset_filter_subset)
    finally show "mset sel \<subseteq># mset pool" by (simp add: mset_candidates)
    from h walk_reaches[of ?d a 0 "candidates pool" sel]
    show "a \<le> sumUnspentOutputs sel"
      by (simp add: select_walk sumUnspentOutputs_def)
  qed
  have 2: "e = InsufficientFunds \<and> sumUnspentOutputs (filter (\<lambda>u. \<not> isDust w t r u) pool) < a"
    if h: "selectUnspentOutputs w t a r pool = Inl e"
    using h walk_error[of ?d a 0 "candidates pool" e] nd by (simp add: select_walk)
  have 3: "selectUnspentOutputs w t a r pool = Inl InsufficientFunds"
    if h: "0 \<le> r \<and> sumUnspentOutputs (filter (\<lambda>u. \<not> isDust w t r u) pool) < a"
    using h walk_fails[of ?d 0 "candidates pool" a] nd marginalInputFee_nonneg[of r w t]
    by (simp add: select_walk)
  from 1 2 3 show ?thesis by blast
qed

theorem select_covers_target_witness:
  "selectUnspentOutputs testWeights WrappedSegwit 25000 22
     [createUtxo 10000 True, createUtxo 20000 True]
     = Inr [createUtxo 20000 True, createUtxo 10000 True]
   \<and> 25000 \<le> sumUnspentOutputs [createUtxo 20000 True, createUtxo 10000 True]
   \<and> (0::rat) \<le> 150
   \<and> sumUnspentOutputs (filter (\<lambda>u. \<not> isDust testWeights WrappedSegwit 150 u)
         [createUtxo 10000 True, createUtxo 20000 True]) < 30000
   \<and> selectUnspentOutputs testWeights WrappedSegwit 30000 150
        [createUtxo 10000 True, createUtxo 20000 True] = Inl InsufficientFunds"
  using select_covers_target
          [of testWeights WrappedSegwit 25000 22 "[createUtxo 10000 True, createUtxo 20000 True]"
              "[createUtxo 20000 True, createUtxo 10000 True]"]
        select_covers_target
          [of testWeights WrappedSegwit 30000 150 "[createUtxo 10000 True, createUtxo 20000 True]"]
  by (simp add: sel_eval sumUnspentOutputs_def isDust_def)

text \<open>
  Claim C2: an output worth less than the fee of its own input at the given rate is
  never part of the selection, and the walk goes on past it: the selection from a pool is
  the selection from the pool without its dust.
\<close>

theorem dust_never_selected:
  "selectUnspentOutputs w t a r pool
     = selectUnspentOutputs w t a r (filter (\<lambda>u. \<not> isDust w t r u) pool)
   \<and> (\<forall>sel u. selectUnspentOutputs w t a r pool = Inr sel \<and> isDust w t r u \<longrightarrow> u \<notin> set sel)"
proof
  show "selectUnspentOutputs w t a r pool
          = selectUnspentOutputs w t a r (filter (\<lambda>u. \<not> isDust w t r u) pool)"
    using walk_filter[of "marginalInputFee w t r" a 0 "candidates pool"]
    by (simp add: select_walk filter_candidates isDust_def)
next
  show "\<forall>sel u. selectUnspentOutputs w t a r pool = Inr sel \<and> isDust w t r u \<longrightarrow> u \<notin> set sel"
  proof (intro allI impI notI)
    fix sel u
    assume h: "selectUnspentOutputs w t a r pool = Inr sel \<and> isDust w t r u" and m: "u \<in> set sel"
    from h have "walk (marginalInputFee w t r) a 0 (candidates pool) = Inr sel"
      by (simp add: select_walk)
    then have "prefix sel (filter (\<lambda>u. \<not> valueSats u < marginalInputFee w t r) (candidates pool))"
      by (rule walk_prefix)
    then have "set sel \<subseteq> set (filter (\<lambda>u. \<not> valueSats u < marginalInputFee w t r) (candidates pool))"
      by (rule set_mono_prefix)
    with m have "\<not> valueSats u < marginalInputFee w t r" by auto
    with h show False by (simp add: isDust_def)
  qed
qed

theorem dust_never_selected_witness:
  "isDust testWeights WrappedSegwit 150 (createUtxo 10000 True)
   \<and> selectUnspentOutputs testWeights WrappedSegwit 30000 150
        [createUtxo 10000 True, createUtxo 20000 True, createUtxo 30000 False]
      = Inr [createUtxo 20000 True, createUtxo 30000 False]
   \<and> createUtxo 10000 True \<notin> set [createUtxo 20000 True, createUtxo 30000 False]
   \<and> selectUnspentOutputs testWeights WrappedSegwit 30000 150
        [createUtxo 20000 True, createUtxo 30000 False]
      = Inr [createUtxo 20000 True, createUtxo 30000 False]"
  using dust_never_selected
          [of testWeights WrappedSegwit 30000 150
              "[createUtxo 10000 True, createUtxo 20000 True, createUtxo 30000 False]"]
  by (simp add: sel_eval isDust_def)

text \<open>
  Claim C3: at a non-negative rate, when some of the confirmed outputs of the pool are
  together worth the amount plus the fee of a transaction spending them, the selection
  succeeds and holds confirmed outputs only. Every selection is the shortest run, from
  the front, of the pool's confirmed outputs that are not dust, largest first, followed
  by its unconfirmed outputs that are not dust, largest first, that reaches the amount.
  So it lists its confirmed outputs before its unconfirmed ones, each part in descending
  order of value, and a selection with an unconfirmed output holds every confirmed
  output of the pool that is not dust.
\<close>

theorem confirmed_first:
  "(0 \<le> r \<and> mset S \<subseteq># mset (filter isConfirmed pool)
      \<and> a + computeFee (estimateVirtualSize w (length S) outs t hasChange) r
           \<le> sumUnspentOutputs S \<longrightarrow>
      (\<exists>sel. selectUnspentOutputs w t a r pool = Inr sel \<and> list_all isConfirmed sel))
   \<and> (selectUnspentOutputs w t a r pool = Inr sel \<longrightarrow>
        prefix sel
          (filter (\<lambda>u. \<not> isDust w t r u) (sortDescending (filter isConfirmed pool))
           @ filter (\<lambda>u. \<not> isDust w t r u)
               (sortDescending (filter (\<lambda>u. \<not> isConfirmed u) pool)))
        \<and> (sel \<noteq> [] \<longrightarrow> sumUnspentOutputs (butlast sel) < a)
        \<and> sel = filter isConfirmed sel @ filter (\<lambda>u. \<not> isConfirmed u) sel
        \<and> (\<not> list_all isConfirmed sel \<longrightarrow>
             filter isConfirmed sel
               = filter (\<lambda>u. \<not> isDust w t r u) (sortDescending (filter isConfirmed pool)))
        \<and> sorted_wrt (\<lambda>x y. valueSats y \<le> valueSats x) (filter isConfirmed sel)
        \<and> sorted_wrt (\<lambda>x y. valueSats y \<le> valueSats x) (filter (\<lambda>u. \<not> isConfirmed u) sel))"
proof -
  let ?d = "marginalInputFee w t r"
  let ?nd = "\<lambda>u. \<not> valueSats u < ?d"
  let ?C = "sortDescending (filter isConfirmed pool)"
  let ?U = "sortDescending (filter (\<lambda>u. \<not> isConfirmed u) pool)"
  have nd: "(\<lambda>u. \<not> isDust w t r u) = ?nd" by (simp add: isDust_def)
  have 1: "\<exists>sel. selectUnspentOutputs w t a r pool = Inr sel \<and> list_all isConfirmed sel"
    if h: "0 \<le> r \<and> mset S \<subseteq># mset (filter isConfirmed pool)
      \<and> a + computeFee (estimateVirtualSize w (length S) outs t hasChange) r
           \<le> sumUnspentOutputs S"
  proof -
    from h have "a \<le> sum_list (map valueSats (filter ?nd S))"
      using confirmed_cover_without_dust[of r a w S outs t hasChange]
      by (simp add: sumUnspentOutputs_def)
    also from h have "\<dots> \<le> sum_list (map valueSats (filter ?nd (filter isConfirmed pool)))"
      using notDust_sum_mono[of ?d S "filter isConfirmed pool"] marginalInputFee_nonneg[of r w t]
      by blast
    finally have cov: "a \<le> sum_list (map valueSats (filter ?nd ?C))"
      by (simp add: filter_sortDescending sum_sortDescending)
    obtain sel where s: "walk ?d a 0 ?C = Inr sel"
    proof (cases "walk ?d a 0 ?C")
      case (Inl e)
      from walk_error[OF this] cov show ?thesis by simp
    next
      case (Inr sel)
      then show ?thesis by (rule that)
    qed
    from walk_append[OF s] have sel: "selectUnspentOutputs w t a r pool = Inr sel"
      by (simp add: selectUnspentOutputs_def candidates_def)
    from walk_prefix[OF s] have "set sel \<subseteq> set (filter ?nd ?C)"
      by (rule set_mono_prefix)
    then have "\<forall>u\<in>set sel. isConfirmed u"
      by (auto simp: set_sortDescending)
    with sel show ?thesis by (auto simp: list_all_iff)
  qed
  have 2: "prefix sel (filter ?nd ?C @ filter ?nd ?U)
        \<and> (sel \<noteq> [] \<longrightarrow> sumUnspentOutputs (butlast sel) < a)
        \<and> sel = filter isConfirmed sel @ filter (\<lambda>u. \<not> isConfirmed u) sel
        \<and> (\<not> list_all isConfirmed sel \<longrightarrow> filter isConfirmed sel = filter ?nd ?C)
        \<and> sorted_wrt (\<lambda>x y. valueSats y \<le> valueSats x) (filter isConfirmed sel)
        \<and> sorted_wrt (\<lambda>x y. valueSats y \<le> valueSats x) (filter (\<lambda>u. \<not> isConfirmed u) sel)"
    if h: "selectUnspentOutputs w t a r pool = Inr sel"
  proof -
    from h have w: "walk ?d a 0 (?C @ ?U) = Inr sel"
      by (simp add: selectUnspentOutputs_def candidates_def)
    then have "prefix sel (filter ?nd (?C @ ?U))" by (rule walk_prefix)
    then have p: "prefix sel (filter ?nd ?C @ filter ?nd ?U)" by simp
    have m: "sel \<noteq> [] \<longrightarrow> sumUnspentOutputs (butlast sel) < a"
      using walk_minimal[OF w] by (simp add: sumUnspentOutputs_def)
    have A: "\<forall>u\<in>set (filter ?nd ?C). isConfirmed u"
      by (auto simp: set_sortDescending)
    have B: "\<forall>u\<in>set (filter ?nd ?U). \<not> isConfirmed u"
      by (auto simp: set_sortDescending)
    note q = prefix_of_partitioned[OF p A B]
    have sC: "sorted_wrt (\<lambda>x y. valueSats y \<le> valueSats x) (filter ?nd ?C)"
      by (rule sorted_wrt_filter) (rule sorted_sortDescending)
    have sU: "sorted_wrt (\<lambda>x y. valueSats y \<le> valueSats x) (filter ?nd ?U)"
      by (rule sorted_wrt_filter) (rule sorted_sortDescending)
    from q have "sel = filter isConfirmed sel @ filter (\<lambda>u. \<not> isConfirmed u) sel" by blast
    moreover from q have "\<not> list_all isConfirmed sel \<longrightarrow> filter isConfirmed sel = filter ?nd ?C"
      by (auto simp: list_all_iff)
    moreover from q sC
    have "sorted_wrt (\<lambda>x y. valueSats y \<le> valueSats x) (filter isConfirmed sel)"
      by (blast intro: sorted_wrt_prefix)
    moreover from q sU
    have "sorted_wrt (\<lambda>x y. valueSats y \<le> valueSats x) (filter (\<lambda>u. \<not> isConfirmed u) sel)"
      by (blast intro: sorted_wrt_prefix)
    ultimately show ?thesis using p m by blast
  qed
  from 1 2 show ?thesis unfolding nd by blast
qed


theorem confirmed_first_witness:
  "(0::rat) \<le> 150
   \<and> mset [createUtxo 50000 True]
       \<subseteq># mset (filter isConfirmed
             [createUtxo 50000 True, createUtxo 1000 True, createUtxo 1000 True,
              createUtxo 1000 True, createUtxo 30000 False])
   \<and> 20000 + computeFee (estimateVirtualSize testWeights 1 [] WrappedSegwit False) 150
       \<le> sumUnspentOutputs [createUtxo 50000 True]
   \<and> selectUnspentOutputs testWeights WrappedSegwit 20000 150
        [createUtxo 50000 True, createUtxo 1000 True, createUtxo 1000 True,
         createUtxo 1000 True, createUtxo 30000 False]
      = Inr [createUtxo 50000 True]
   \<and> list_all isConfirmed [createUtxo 50000 True]
   \<and> selectUnspentOutputs testWeights WrappedSegwit 40000 22
        [createUtxo 10000 True, createUtxo 20000 True, createUtxo 30000 False]
      = Inr [createUtxo 20000 True, createUtxo 10000 True, createUtxo 30000 False]
   \<and> filter isConfirmed [createUtxo 20000 True, createUtxo 10000 True, createUtxo 30000 False]
      = [createUtxo 20000 True, createUtxo 10000 True]
   \<and> sumUnspentOutputs
        (butlast [createUtxo 20000 True, createUtxo 10000 True, createUtxo 30000 False]) < 40000"
  using confirmed_first
          [where r = 150 and a = 20000 and w = testWeights and t = WrappedSegwit
             and S = "[createUtxo 50000 True]" and outs = "[]" and hasChange = False
             and pool = "[createUtxo 50000 True, createUtxo 1000 True, createUtxo 1000 True,
                          createUtxo 1000 True, createUtxo 30000 False]"
             and sel = "[createUtxo 50000 True]"]
        confirmed_first
          [where r = 22 and a = 40000 and w = testWeights and t = WrappedSegwit
             and S = "[]" and outs = "[]" and hasChange = False
             and pool = "[createUtxo 10000 True, createUtxo 20000 True, createUtxo 30000 False]"
             and sel = "[createUtxo 20000 True, createUtxo 10000 True, createUtxo 30000 False]"]
  by (simp add: sel_eval sumUnspentOutputs_def estimateVirtualSize_def isDust_def)

end
